theory Spec2Isabelle
  imports Main "HOL-Library.Word" "HOL-Library.Multiset" "HOL-Library.AList"
begin

unbundle bit_operations_syntax

section \<open>Bytes, errors and panics\<close>

type_synonym byte = "8 word"
type_synonym bytes = "byte list"
type_synonym uint64 = "64 word"

text \<open>A Go \<open>error\<close> value is opaque to the storage layer: it is only passed on.\<close>

datatype error = Error string

text \<open>
  A Go panic ends the call. The storage layer has two sources of panics: an index
  out of range (the bounds check \<open>_ = b[7]\<close> of \<open>encoding/binary\<close>) and the
  explicit \<open>panic(err)\<close> of the read operations.
\<close>

datatype panic = IndexOutOfRange | PanicErr error

definition bytes_of :: "string \<Rightarrow> bytes" where
  "bytes_of s = map (\<lambda>c. of_nat (of_char c)) s"

section \<open>types/header.go\<close>

type_synonym Hash = bytes
type_synonym Address = bytes
type_synonym Bloom = bytes
type_synonym HexBytes = bytes
type_synonym Nonce = bytes

record Header =
  ParentHash :: Hash
  Sha3Uncles :: Hash
  Miner :: Address
  StateRoot :: Hash
  TxRoot :: Hash
  ReceiptsRoot :: Hash
  LogsBloom :: Bloom
  Difficulty :: uint64
  Number :: uint64
  GasLimit :: uint64
  GasUsed :: uint64
  Timestamp :: uint64
  ExtraData :: HexBytes
  MixHash :: Hash
  Nonce :: Nonce
  Hash :: Hash

text \<open>\<open>func (h *Header) Equal(hh *Header) bool { return h.Hash == hh.Hash }\<close>\<close>

definition Equal :: "Header \<Rightarrow> Header \<Rightarrow> bool" where
  "Equal h hh = (Hash h = Hash hh)"

section \<open>blockchain/storage/keyvalue.go\<close>

subsection \<open>Prefixes\<close>

definition DIFFICULTY :: bytes where "DIFFICULTY = bytes_of ''d''"
definition HEADER :: bytes where "HEADER = bytes_of ''h''"
definition HEAD :: bytes where "HEAD = bytes_of ''o''"
definition FORK :: bytes where "FORK = bytes_of ''f''"
definition CANONICAL :: bytes where "CANONICAL = bytes_of ''c''"
definition BODY :: bytes where "BODY = bytes_of ''b''"
definition RECEIPTS :: bytes where "RECEIPTS = bytes_of ''r''"
definition SNAPSHOTS :: bytes where "SNAPSHOTS = bytes_of ''s''"
definition TX_LOOKUP_PREFIX :: bytes where "TX_LOOKUP_PREFIX = bytes_of ''l''"
definition CHAIN_INDEXER_HEAD :: bytes where
  "CHAIN_INDEXER_HEAD = bytes_of ''chainIndexerSectionsHead''"
definition CHAIN_INDEXER :: bytes where "CHAIN_INDEXER = bytes_of ''chainIndexer''"

definition HASH :: bytes where "HASH = bytes_of ''hash''"
definition NUMBER :: bytes where "NUMBER = bytes_of ''number''"
definition EMPTY :: bytes where "EMPTY = bytes_of ''empty''"
definition CHAIN_SECTIONS :: bytes where "CHAIN_SECTIONS = bytes_of ''sectionsValid''"

subsection \<open>The KV interface\<close>

text \<open>
  \<open>type KV interface { Close() error; Set(p, v []byte) error; Get(p []byte) ([]byte, bool, error) }\<close>

  The database behind the interface is any state type \<open>'db\<close>. \<open>Set\<close> returns the
  state it leaves behind together with its error (\<open>None\<close> is Go's \<open>nil\<close>);
  \<open>Get\<close> returns the data, the found flag and its error.
\<close>

record 'db KV =
  kvSet :: "'db \<Rightarrow> bytes \<Rightarrow> bytes \<Rightarrow> 'db \<times> error option"
  kvGet :: "'db \<Rightarrow> bytes \<Rightarrow> bytes \<times> bool \<times> error option"

text \<open>\<open>set\<close> and \<open>get\<close>: the key is the prefix followed by the key.\<close>

definition set_kv :: "'db KV \<Rightarrow> 'db \<Rightarrow> bytes \<Rightarrow> bytes \<Rightarrow> bytes \<Rightarrow> 'db \<times> error option" where
  "set_kv kv db prefix key val = kvSet kv db (prefix @ key) val"

definition get_kv :: "'db KV \<Rightarrow> 'db \<Rightarrow> bytes \<Rightarrow> bytes \<Rightarrow> bytes \<times> bool" where
  "get_kv kv db prefix key =
     (case kvGet kv db (prefix @ key) of
        (data, ok, err) \<Rightarrow> if err \<noteq> None then ([], False) else (data, ok))"

subsection \<open>encoding/binary, big endian\<close>

definition be_bytes :: "uint64 \<Rightarrow> bytes" where
  "be_bytes v =
     [ucast (drop_bit 56 v), ucast (drop_bit 48 v), ucast (drop_bit 40 v),
      ucast (drop_bit 32 v), ucast (drop_bit 24 v), ucast (drop_bit 16 v),
      ucast (drop_bit 8 v), ucast v]"

text \<open>
  \<open>binary.BigEndian.PutUint64(b, v)\<close> starts with the bounds check \<open>_ = b[7]\<close>,
  which panics on a slice shorter than 8 bytes, then writes \<open>b[0..7]\<close>.
  The model returns the new contents of the slice.
\<close>

definition PutUint64 :: "bytes \<Rightarrow> uint64 \<Rightarrow> panic + bytes" where
  "PutUint64 b v = (if length b < 8 then Inl IndexOutOfRange else Inr (be_bytes v @ drop 8 b))"

text \<open>
  \<open>binary.BigEndian.Uint64(b)\<close>: the same bounds check, then
  \<open>uint64(b[7]) | uint64(b[6])<<8 | ... | uint64(b[0])<<56\<close>.
\<close>

definition Uint64 :: "bytes \<Rightarrow> panic + uint64" where
  "Uint64 b =
     (if length b < 8 then Inl IndexOutOfRange
      else Inr (ucast (b ! 7) OR push_bit 8 (ucast (b ! 6)) OR push_bit 16 (ucast (b ! 5))
                OR push_bit 24 (ucast (b ! 4)) OR push_bit 32 (ucast (b ! 3))
                OR push_bit 40 (ucast (b ! 2)) OR push_bit 48 (ucast (b ! 1))
                OR push_bit 56 (ucast (b ! 0))))"

text \<open>
  \<open>encodeUint\<close> makes a slice of 8 zero bytes and calls \<open>PutUint64\<close> on it; the
  bounds check passes (lemma \<open>encodeUint_PutUint64\<close> below), so it returns the
  8 big-endian bytes.
\<close>

definition encodeUint :: "uint64 \<Rightarrow> bytes" where
  "encodeUint n = be_bytes n"

definition decodeUint :: "bytes \<Rightarrow> panic + uint64" where
  "decodeUint b = Uint64 b"

subsection \<open>Head\<close>

definition ReadHeadNumber :: "'db KV \<Rightarrow> 'db \<Rightarrow> panic + (uint64 \<times> bool)" where
  "ReadHeadNumber kv db =
     (case get_kv kv db HEAD NUMBER of
        (data, ok) \<Rightarrow>
          if \<not> ok then Inr (0, False)
          else if length data \<noteq> 8 then Inr (0, False)
          else (case decodeUint data of Inl p \<Rightarrow> Inl p | Inr n \<Rightarrow> Inr (n, True)))"

definition WriteHeadHash :: "'db KV \<Rightarrow> 'db \<Rightarrow> Hash \<Rightarrow> 'db \<times> error option" where
  "WriteHeadHash kv db h = set_kv kv db HEAD HASH h"

definition WriteHeadNumber :: "'db KV \<Rightarrow> 'db \<Rightarrow> uint64 \<Rightarrow> 'db \<times> error option" where
  "WriteHeadNumber kv db n = set_kv kv db HEAD NUMBER (encodeUint n)"

definition WriteCanonicalHash :: "'db KV \<Rightarrow> 'db \<Rightarrow> uint64 \<Rightarrow> Hash \<Rightarrow> 'db \<times> error option" where
  "WriteCanonicalHash kv db n hash = set_kv kv db CANONICAL (encodeUint n) hash"

subsection \<open>The RLP library and the codecs of package types\<close>

text \<open>
  The storage layer builds and parses RLP through \<open>github.com/umbracle/fastrlp\<close>, and
  encodes headers and receipts through methods of package \<open>types\<close> that are declared
  in other files. They are parameters of the model: \<open>'v\<close> is \<open>fastrlp.Value\<close>,
  \<open>Parse\<close> is \<open>Parser.Parse\<close>, \<open>MarshalTo\<close> is \<open>v.MarshalTo(nil)\<close>, and
  \<open>GetHash\<close> returns the 32 bytes it copies into its argument.
\<close>

record 'v fastrlp =
  Parse :: "bytes \<Rightarrow> error + 'v"
  GetElems :: "'v \<Rightarrow> error + 'v list"
  GetHash :: "'v \<Rightarrow> error + Hash"
  MarshalTo :: "'v \<Rightarrow> bytes"

text \<open>\<open>read2\<close>: \<open>None\<close> is the nil value, returned when the key is missing or does not parse.\<close>

definition read2 :: "'db KV \<Rightarrow> 'v fastrlp \<Rightarrow> 'db \<Rightarrow> bytes \<Rightarrow> bytes \<Rightarrow> 'v option" where
  "read2 kv rlp db p k =
     (case get_kv kv db p k of
        (data, ok) \<Rightarrow>
          if \<not> ok then None
          else (case Parse rlp data of Inl err \<Rightarrow> None | Inr v \<Rightarrow> Some v))"

definition write2 ::
  "'db KV \<Rightarrow> 'v fastrlp \<Rightarrow> 'db \<Rightarrow> bytes \<Rightarrow> bytes \<Rightarrow> 'v \<Rightarrow> 'db \<times> error option" where
  "write2 kv rlp db p k v = (let dst = MarshalTo rlp v in set_kv kv db p k dst)"

subsection \<open>Forks\<close>

text \<open>The loop over the elements: the first failing element ends it.\<close>

fun decode_elems :: "('v \<Rightarrow> error + 'a) \<Rightarrow> 'v list \<Rightarrow> error + 'a list" where
  "decode_elems f [] = Inr []"
| "decode_elems f (elem # elems) =
     (case f elem of
        Inl err \<Rightarrow> Inl err
      | Inr x \<Rightarrow> (case decode_elems f elems of Inl err \<Rightarrow> Inl err | Inr xs \<Rightarrow> Inr (x # xs)))"

text \<open>\<open>ReadForks\<close> returns nil (\<open>None\<close>) or the forks, or panics.\<close>

definition ReadForks :: "'db KV \<Rightarrow> 'v fastrlp \<Rightarrow> 'db \<Rightarrow> panic + Hash list option" where
  "ReadForks kv rlp db =
     (case read2 kv rlp db FORK EMPTY of
        None \<Rightarrow> Inr None
      | Some v \<Rightarrow>
          (case GetElems rlp v of
             Inl err \<Rightarrow> Inl (PanicErr err)
           | Inr elems \<Rightarrow>
               (case decode_elems (GetHash rlp) elems of
                  Inl err \<Rightarrow> Inl (PanicErr err)
                | Inr forks \<Rightarrow> Inr (Some forks))))"

subsection \<open>Difficulty\<close>

text \<open>\<open>big.Int.Bytes\<close>: the absolute value, big endian, without leading zero bytes.\<close>

function big_bytes :: "nat \<Rightarrow> bytes" where
  "big_bytes n = (if n = 0 then [] else big_bytes (n div 256) @ [of_nat (n mod 256)])"
  by pat_completeness auto
termination
  by (relation "measure (\<lambda>n. n)") auto

declare big_bytes.simps [simp del]

definition Bytes_big :: "int \<Rightarrow> bytes" where
  "Bytes_big x = big_bytes (nat \<bar>x\<bar>)"

definition WriteDiff :: "'db KV \<Rightarrow> 'db \<Rightarrow> Hash \<Rightarrow> int \<Rightarrow> 'db \<times> error option" where
  "WriteDiff kv db hash diff = set_kv kv db DIFFICULTY hash (Bytes_big diff)"

subsection \<open>Headers\<close>

definition WriteHeader ::
  "'db KV \<Rightarrow> 'v fastrlp \<Rightarrow> (Header \<Rightarrow> 'v) \<Rightarrow> 'db \<Rightarrow> Header \<Rightarrow> 'db \<times> error option" where
  "WriteHeader kv rlp MarshalRLPWith db h =
     (let v = MarshalRLPWith h in write2 kv rlp db HEADER (Hash h) v)"

text \<open>\<open>ReadHeader\<close> returns \<open>(nil, false)\<close> (\<open>None\<close>) or \<open>(header, true)\<close>, or panics.\<close>

definition ReadHeader ::
  "'db KV \<Rightarrow> 'v fastrlp \<Rightarrow> ('v \<Rightarrow> error + Header) \<Rightarrow> 'db \<Rightarrow> Hash \<Rightarrow> panic + Header option" where
  "ReadHeader kv rlp UnmarshalRLPFrom db hash =
     (case read2 kv rlp db HEADER hash of
        None \<Rightarrow> Inr None
      | Some v \<Rightarrow>
          (case UnmarshalRLPFrom v of
             Inl err \<Rightarrow> Inl (PanicErr err)
           | Inr header2 \<Rightarrow> Inr (Some header2)))"

definition WriteCanonicalHeader ::
  "'db KV \<Rightarrow> 'v fastrlp \<Rightarrow> (Header \<Rightarrow> 'v) \<Rightarrow> 'db \<Rightarrow> Header \<Rightarrow> int \<Rightarrow> 'db \<times> error option" where
  "WriteCanonicalHeader kv rlp MarshalRLPWith db h diff =
     (case WriteHeader kv rlp MarshalRLPWith db h of
        (db1, Some err) \<Rightarrow> (db1, Some err)
      | (db1, None) \<Rightarrow>
     (case WriteHeadHash kv db1 (Hash h) of
        (db2, Some err) \<Rightarrow> (db2, Some err)
      | (db2, None) \<Rightarrow>
     (case WriteHeadNumber kv db2 (Number h) of
        (db3, Some err) \<Rightarrow> (db3, Some err)
      | (db3, None) \<Rightarrow>
     (case WriteCanonicalHash kv db3 (Number h) (Hash h) of
        (db4, Some err) \<Rightarrow> (db4, Some err)
      | (db4, None) \<Rightarrow>
     (case WriteDiff kv db4 (Hash h) diff of
        (db5, Some err) \<Rightarrow> (db5, Some err)
      | (db5, None) \<Rightarrow> (db5, None))))))"

text \<open>
  The five writes of \<open>WriteCanonicalHeader\<close> as data, in the order of the code:
  header, head hash, head number, canonical hash, difficulty; and a run of \<open>Set\<close>
  calls that returns at the first error, as its chain of \<open>if err != nil { return err }\<close>
  does. Lemma \<open>WriteCanonicalHeader_set_all\<close> relates them to the function.
\<close>

definition canonical_writes ::
  "'v fastrlp \<Rightarrow> (Header \<Rightarrow> 'v) \<Rightarrow> Header \<Rightarrow> int \<Rightarrow> (bytes \<times> bytes) list" where
  "canonical_writes rlp MarshalRLPWith h diff =
     [(HEADER @ Hash h, MarshalTo rlp (MarshalRLPWith h)),
      (HEAD @ HASH, Hash h),
      (HEAD @ NUMBER, encodeUint (Number h)),
      (CANONICAL @ encodeUint (Number h), Hash h),
      (DIFFICULTY @ Hash h, Bytes_big diff)]"

fun set_all :: "'db KV \<Rightarrow> 'db \<Rightarrow> (bytes \<times> bytes) list \<Rightarrow> 'db \<times> error option" where
  "set_all kv db [] = (db, None)"
| "set_all kv db ((k, v) # kvs) =
     (case kvSet kv db k v of
        (db1, Some err) \<Rightarrow> (db1, Some err)
      | (db1, None) \<Rightarrow> set_all kv db1 kvs)"

text \<open>
  What a caller may expect of a store: a \<open>Set\<close> that returns nil makes \<open>Get\<close> of
  that key return the value, and leaves every other key as it was.
\<close>

definition lawful :: "'db KV \<Rightarrow> bool" where
  "lawful kv = (\<forall>d k v d'. kvSet kv d k v = (d', None) \<longrightarrow>
      kvGet kv d' k = (v, True, None) \<and> (\<forall>k'. k' \<noteq> k \<longrightarrow> kvGet kv d' k' = kvGet kv d k'))"

subsection \<open>Receipts\<close>

text \<open>\<open>'r\<close> is \<open>types.Receipt\<close>, declared in another file, with its decoder.\<close>

definition ReadReceipts ::
  "'db KV \<Rightarrow> 'v fastrlp \<Rightarrow> ('v \<Rightarrow> error + 'r) \<Rightarrow> 'db \<Rightarrow> Hash \<Rightarrow> panic + 'r list option" where
  "ReadReceipts kv rlp UnmarshalRLPFrom db hash =
     (case read2 kv rlp db RECEIPTS hash of
        None \<Rightarrow> Inr None
      | Some v \<Rightarrow>
          (case GetElems rlp v of
             Inl err \<Rightarrow> Inl (PanicErr err)
           | Inr elems \<Rightarrow>
               (case decode_elems UnmarshalRLPFrom elems of
                  Inl err \<Rightarrow> Inl (PanicErr err)
                | Inr receipts2 \<Rightarrow> Inr (Some receipts2))))"

subsection \<open>Chain indexer\<close>

text \<open>
  Each operation declares \<open>var sectionBinary []byte\<close> (a nil slice, length 0) and
  calls \<open>PutUint64\<close> on it before anything else. \<open>BytesToHash\<close> is declared
  outside this file and is a parameter.
\<close>

definition ReadIndexSectionHead ::
  "'db KV \<Rightarrow> (bytes \<Rightarrow> Hash) \<Rightarrow> 'db \<Rightarrow> uint64 \<Rightarrow> panic + Hash" where
  "ReadIndexSectionHead kv BytesToHash db section =
     (case PutUint64 [] section of
        Inl p \<Rightarrow> Inl p
      | Inr sectionBinary \<Rightarrow>
          (case get_kv kv db CHAIN_INDEXER sectionBinary of
             (data, _) \<Rightarrow> Inr (BytesToHash data)))"

definition WriteIndexSectionHead ::
  "'db KV \<Rightarrow> 'db \<Rightarrow> uint64 \<Rightarrow> Hash \<Rightarrow> panic + ('db \<times> error option)" where
  "WriteIndexSectionHead kv db section hash =
     (case PutUint64 [] section of
        Inl p \<Rightarrow> Inl p
      | Inr sectionBinary \<Rightarrow> Inr (set_kv kv db CHAIN_INDEXER_HEAD sectionBinary hash))"

definition RemoveSectionHead ::
  "'db KV \<Rightarrow> 'db \<Rightarrow> uint64 \<Rightarrow> panic + ('db \<times> error option)" where
  "RemoveSectionHead kv db section =
     (case PutUint64 [] section of
        Inl p \<Rightarrow> Inl p
      | Inr sectionBinary \<Rightarrow> Inr (set_kv kv db CHAIN_INDEXER_HEAD sectionBinary []))"

definition WriteValidSectionsNum ::
  "'db KV \<Rightarrow> 'db \<Rightarrow> uint64 \<Rightarrow> panic + ('db \<times> error option)" where
  "WriteValidSectionsNum kv db sections =
     (case PutUint64 [] sections of
        Inl p \<Rightarrow> Inl p
      | Inr sectionsBinary \<Rightarrow> Inr (set_kv kv db CHAIN_INDEXER CHAIN_SECTIONS sectionsBinary))"

text \<open>\<open>WriteBloomBits\<close> returns nothing and drops the error of \<open>set\<close>: the result is the database.\<close>

definition WriteBloomBits ::
  "'db KV \<Rightarrow> 'db \<Rightarrow> uint64 \<Rightarrow> uint64 \<Rightarrow> Hash \<Rightarrow> bytes \<Rightarrow> panic + 'db" where
  "WriteBloomBits kv db bitNum currentSection bHead bits =
     (case PutUint64 [] bitNum of
        Inl p \<Rightarrow> Inl p
      | Inr bitNumBinary \<Rightarrow>
          (case PutUint64 [] currentSection of
             Inl p \<Rightarrow> Inl p
           | Inr currentSectionBinary \<Rightarrow>
               (let generatedKey = bitNumBinary @ currentSectionBinary
                in Inr (fst (set_kv kv db CHAIN_INDEXER (generatedKey @ bHead) bits)))))"

section \<open>Consensus core\<close>

text \<open>
  Of package \<open>consensus/ibft\<close> the sources hold the test \<open>ibft_framing_test.go\<close>
  only; the validator set, the round state and the state machine are in other files.
  Their definitions below are written from the specification and are marked as such.
\<close>

subsection \<open>Quorum arithmetic\<close>

text \<open>
  Modelled from the spec: the quorum size of the validator set, which is missing from
  the sources. \<open>Q = floor(2N/3) + 1\<close> where \<open>N = len(ValidatorSet)\<close>.
\<close>

definition Quorum :: "nat \<Rightarrow> int" where
  "Quorum N = (2 * int N) div 3 + 1"

text \<open>
  Modelled from the spec: the tolerated faulty count, which is missing from the
  sources. \<open>F = floor((N-1)/3)\<close>.
\<close>

definition MaxFaulty :: "nat \<Rightarrow> int" where
  "MaxFaulty N = (int N - 1) div 3"

subsection \<open>Views, validators and the proposer\<close>

text \<open>
  Modelled from the spec: the view \<open>(Sequence uint64, Round uint64)\<close>, which is
  missing from the sources.
\<close>

record View =
  Sequence :: uint64
  Round :: uint64

text \<open>
  Modelled from the spec: a validator is an address; the type is missing from the
  sources.
\<close>

type_synonym Validator = Address

text \<open>
  Modelled from the spec: the error kind \<open>ConfigError\<close> of an empty validator set,
  which is missing from the sources.
\<close>

datatype ConfigError = EmptyValidatorSet

text \<open>
  Modelled from the spec: \<open>ProposerAt\<close>, which is missing from the sources.
  \<open>validatorSet[(view.Sequence + view.Round) mod len(validatorSet)]\<close>, and an empty
  validator set is a fatal misconfiguration. The sum is the sum of the two numbers,
  as the spec writes it.
\<close>

definition ProposerAt :: "View \<Rightarrow> Validator list \<Rightarrow> ConfigError + Validator" where
  "ProposerAt view validatorSet =
     (if validatorSet = [] then Inl EmptyValidatorSet
      else Inr (validatorSet ! ((unat (Sequence view) + unat (Round view)) mod length validatorSet)))"

subsection \<open>Messages\<close>

text \<open>
  Modelled from the spec: the message types
  \<open>{Preprepare, Prepare, Commit, RoundChange}\<close>, which are missing from the sources.
\<close>

datatype MsgType = Preprepare | Prepare | Commit | RoundChange

text \<open>
  Modelled from the spec: the signed protocol message
  \<open>{Type, View, Payload, Sender, Signature}\<close>, which is missing from the sources.
\<close>

record Message =
  MType :: MsgType
  MView :: View
  Payload :: bytes
  Sender :: Validator
  Signature :: bytes

text \<open>
  Modelled from the spec: the two failures of \<open>Verify\<close>, \<open>BadSignature\<close> and
  \<open>UnknownSender\<close>, which are missing from the sources.
\<close>

datatype ProtocolError = BadSignature | UnknownSender

text \<open>
  Modelled from the spec: \<open>Verify(message, validatorSet)\<close>, which is missing from the
  sources: it checks the signature and confirms that the sender is in the validator
  set. The signature check itself is the parameter \<open>sig_ok\<close>.
\<close>

definition Verify :: "(Message \<Rightarrow> bool) \<Rightarrow> Message \<Rightarrow> Validator list \<Rightarrow> ProtocolError + unit" where
  "Verify sig_ok message validatorSet =
     (if \<not> sig_ok message then Inl BadSignature
      else if Sender message \<notin> set validatorSet then Inl UnknownSender
      else Inr ())"

subsection \<open>Round state\<close>

text \<open>
  Modelled from the spec: the Round State, which is missing from the sources:
  \<open>Proposal\<close>, \<open>LockedProposal\<close> and the three vote stores, each for a view a
  mapping from Sender to Message. A vote store is kept as a list of (sender, message)
  entries in arrival order, so that one message per sender is a property to be
  proved, not one of the type.
\<close>

type_synonym Votes = "(Validator \<times> Message) list"

text \<open>
  Modelled from the spec: the fields of the Round State, which is missing from the
  sources. A candidate block is its bytes.
\<close>

record RoundState =
  Proposal :: "bytes option"
  LockedProposal :: "bytes option"
  PrepareVotes :: "View \<Rightarrow> Votes"
  CommitVotes :: "View \<Rightarrow> Votes"
  RoundChangeVotes :: "View \<Rightarrow> Votes"

text \<open>
  Modelled from the spec: a fresh Round State, which is missing from the sources: no
  lock and no votes; the proposal is the candidate block of the view, if any.
\<close>

definition newRoundState :: "bytes option \<Rightarrow> RoundState" where
  "newRoundState proposal =
     \<lparr>Proposal = proposal, LockedProposal = None, PrepareVotes = (\<lambda>_. []),
      CommitVotes = (\<lambda>_. []), RoundChangeVotes = (\<lambda>_. [])\<rparr>"

text \<open>
  Modelled from the spec: \<open>Deduplicate(store, message)\<close>, which is missing from the
  sources: a second message from the same Sender for the same (view, type) is ignored
  (first seen wins).
\<close>

definition Deduplicate :: "Votes \<Rightarrow> Message \<Rightarrow> Votes" where
  "Deduplicate store message =
     (if Sender message \<in> set (map fst store) then store
      else store @ [(Sender message, message)])"

text \<open>
  Modelled from the spec: folding a message into the Round State, which is missing
  from the sources. A Prepare, Commit or RoundChange goes to the store of its type at
  its view. Whether the proposer's Preprepare fills its own Prepare slot is the
  convention \<open>implicitPrepare\<close>, which the spec leaves open.
\<close>

definition AddMessage :: "bool \<Rightarrow> RoundState \<Rightarrow> Message \<Rightarrow> RoundState" where
  "AddMessage implicitPrepare st m =
     (case MType m of
        Prepare \<Rightarrow>
          st\<lparr>PrepareVotes := (PrepareVotes st)(MView m := Deduplicate (PrepareVotes st (MView m)) m)\<rparr>
      | Commit \<Rightarrow>
          st\<lparr>CommitVotes := (CommitVotes st)(MView m := Deduplicate (CommitVotes st (MView m)) m)\<rparr>
      | RoundChange \<Rightarrow>
          st\<lparr>RoundChangeVotes :=
               (RoundChangeVotes st)(MView m := Deduplicate (RoundChangeVotes st (MView m)) m)\<rparr>
      | Preprepare \<Rightarrow>
          if implicitPrepare
          then st\<lparr>PrepareVotes := (PrepareVotes st)(MView m := Deduplicate (PrepareVotes st (MView m)) m)\<rparr>
          else st)"

text \<open>
  Modelled from the spec: \<open>HasQuorumPrepares\<close>, which is missing from the sources:
  \<open>len(PrepareVotes[view]) >= Q\<close>, with \<open>Q\<close> the quorum size of the validator set.
\<close>

definition HasQuorumPrepares :: "Validator list \<Rightarrow> RoundState \<Rightarrow> View \<Rightarrow> bool" where
  "HasQuorumPrepares validatorSet st view =
     (Quorum (length validatorSet) \<le> int (length (PrepareVotes st view)))"



text \<open>
  Modelled from the spec: the lock, which is missing from the sources: on
  \<open>HasQuorumPrepares(view)\<close> for the current view, \<open>LockedProposal = Proposal\<close>.
\<close>

definition LockOnQuorum :: "Validator list \<Rightarrow> View \<Rightarrow> RoundState \<Rightarrow> RoundState" where
  "LockOnQuorum validatorSet view st =
     (if HasQuorumPrepares validatorSet st view then st\<lparr>LockedProposal := Proposal st\<rparr> else st)"

text \<open>
  Modelled from the spec: the reset on finalize, which is missing from the sources:
  it clears the vote stores of the finalized sequence, the proposal and the lock.
\<close>

definition Reset :: "uint64 \<Rightarrow> RoundState \<Rightarrow> RoundState" where
  "Reset seq st =
     \<lparr>Proposal = None, LockedProposal = None,
      PrepareVotes = (\<lambda>v. if Sequence v = seq then [] else PrepareVotes st v),
      CommitVotes = (\<lambda>v. if Sequence v = seq then [] else CommitVotes st v),
      RoundChangeVotes = (\<lambda>v. if Sequence v = seq then [] else RoundChangeVotes st v)\<rparr>"

text \<open>
  Modelled from the spec: accepting the candidate block, which is missing from the
  sources: the block of the Preprepare becomes the \<open>Proposal\<close> of the Round State,
  unless the Round State has one already (first seen wins).
\<close>

definition AcceptProposal :: "RoundState \<Rightarrow> Message \<Rightarrow> RoundState" where
  "AcceptProposal st m =
     (if Proposal st = None then st\<lparr>Proposal := Some (Payload m)\<rparr> else st)"

text \<open>
  Modelled from the spec: receiving one message on the control path, at the current
  view, which is missing from the sources. A message that fails verification is
  dropped. A message for a past sequence is discarded. A message for a future sequence
  does not reach the Round State (it is buffered or discarded, see \<open>BufferFuture\<close>).
  A Preprepare counts only at the current view and from its expected proposer: its
  block becomes the proposal. Every message that gets this far is folded into the vote
  stores, and the lock follows a Prepare quorum at the current view. The validation of
  the candidate block against the chain rules is the Blockchain Adapter's and has no
  part here.
\<close>

definition Receive ::
  "(Message \<Rightarrow> bool) \<Rightarrow> bool \<Rightarrow> Validator list \<Rightarrow> View \<Rightarrow> RoundState \<Rightarrow> Message \<Rightarrow> RoundState" where
  "Receive sig_ok implicitPrepare validatorSet view st m =
     (case Verify sig_ok m validatorSet of
        Inl err \<Rightarrow> st
      | Inr ok \<Rightarrow>
          if Sequence (MView m) < Sequence view then st
          else if Sequence view < Sequence (MView m) then st
          else if MType m = Preprepare then
            (if MView m = view \<and> ProposerAt view validatorSet = Inr (Sender m)
             then LockOnQuorum validatorSet view
                    (AddMessage implicitPrepare (AcceptProposal st m) m)
             else st)
          else LockOnQuorum validatorSet view (AddMessage implicitPrepare st m))"







text \<open>
  Modelled from the spec: the operations on the Round State, which are missing from
  the sources: adding a message, locking on a Prepare quorum, the reset on finalize and
  setting the proposal.
\<close>

datatype RoundStateOp =
    OpAddMessage bool Message
  | OpLockOnQuorum "Validator list" View
  | OpReset uint64
  | OpSetProposal "bytes option"

text \<open>
  Modelled from the spec: the effect of each Round State operation, which is missing
  from the sources.
\<close>

fun applyOp :: "RoundState \<Rightarrow> RoundStateOp \<Rightarrow> RoundState" where
  "applyOp st (OpAddMessage implicitPrepare m) = AddMessage implicitPrepare st m"
| "applyOp st (OpLockOnQuorum validatorSet view) = LockOnQuorum validatorSet view st"
| "applyOp st (OpReset seq) = Reset seq st"
| "applyOp st (OpSetProposal p) = st\<lparr>Proposal := p\<rparr>"

text \<open>
  Modelled from the spec: the deduplication invariant of a vote store, which is missing
  from the sources: one message per sender.
\<close>

definition one_per_sender :: "Votes \<Rightarrow> bool" where
  "one_per_sender store = distinct (map fst store)"

text \<open>
  Modelled from the spec: the deduplication invariant of the Round State, which is
  missing from the sources: one message per sender, per type, per view.
\<close>

definition deduplicated :: "RoundState \<Rightarrow> bool" where
  "deduplicated st =
     (\<forall>view. one_per_sender (PrepareVotes st view) \<and> one_per_sender (CommitVotes st view)
             \<and> one_per_sender (RoundChangeVotes st view))"

subsection \<open>The framing of the consensus test\<close>

text \<open>
  \<open>ibft_framing_test.go\<close> sets up four validators, A to D, and the view \<open>(1, 0)\<close>.
  The runs below use the same framing. Signatures are outside the model: in these runs
  a message counts as signed when its signature field holds the sender's address.
\<close>

definition accounts :: "Validator list" where
  "accounts = [bytes_of ''A'', bytes_of ''B'', bytes_of ''C'', bytes_of ''D'']"

definition view_1_0 :: View where
  "view_1_0 = \<lparr>Sequence = 1, Round = 0\<rparr>"

definition signed_msg :: "MsgType \<Rightarrow> string \<Rightarrow> bytes \<Rightarrow> Message" where
  "signed_msg t account payload =
     \<lparr>MType = t, MView = view_1_0, Payload = payload, Sender = bytes_of account,
      Signature = bytes_of account\<rparr>"

definition signature_ok :: "Message \<Rightarrow> bool" where
  "signature_ok m = (Signature m = Sender m)"



section \<open>Instances of the interfaces, for concrete runs\<close>

subsection \<open>A bounded in-memory store\<close>

text \<open>
  An implementation of the KV interface: an association list that holds at most
  \<open>cap\<close> keys. \<open>Set\<close> of a new key on a full store fails and changes nothing.
\<close>

definition memSet ::
  "nat \<Rightarrow> (bytes \<times> bytes) list \<Rightarrow> bytes \<Rightarrow> bytes \<Rightarrow> (bytes \<times> bytes) list \<times> error option" where
  "memSet cap db k v =
     (if k \<in> set (map fst db) \<or> length db < cap then (AList.update k v db, None)
      else (db, Some (Error ''store is full'')))"

definition memGet :: "(bytes \<times> bytes) list \<Rightarrow> bytes \<Rightarrow> bytes \<times> bool \<times> error option" where
  "memGet db k = (case map_of db k of None \<Rightarrow> ([], False, None) | Some v \<Rightarrow> (v, True, None))"

definition memKV :: "nat \<Rightarrow> (bytes \<times> bytes) list KV" where
  "memKV cap = \<lparr>kvSet = memSet cap, kvGet = memGet\<rparr>"

subsection \<open>An RLP codec\<close>

text \<open>
  An implementation of the RLP interface on byte strings and lists, following the
  RLP wire format: a single byte below 0x80 stands for itself, a string or list of
  fewer than 56 bytes carries its length in its first byte, a longer one the length
  of its length.
\<close>

datatype Value = VBytes bytes | VArray "Value list"

definition len_prefix :: "nat \<Rightarrow> nat \<Rightarrow> bytes" where
  "len_prefix base n =
     (if n < 56 then [of_nat (base + n)]
      else (let l = big_bytes n in of_nat (base + 55 + length l) # l))"

fun rlp_marshal :: "Value \<Rightarrow> bytes" where
  "rlp_marshal (VBytes b) =
     (if length b = 1 \<and> hd b < 0x80 then b else len_prefix 0x80 (length b) @ b)"
| "rlp_marshal (VArray vs) =
     (let payload = concat (map rlp_marshal vs) in len_prefix 0xC0 (length payload) @ payload)"

definition read_size :: "bytes \<Rightarrow> nat" where
  "read_size b = foldl (\<lambda>a x. a * 256 + unat x) 0 b"

text \<open>
  The parser takes fuel, one unit for each value and each list tail it opens, and
  reports an error when it runs out. \<open>rlp_parse\<close> gives it twice the length of the
  input and one more.
\<close>

fun rlp_value :: "nat \<Rightarrow> bytes \<Rightarrow> error + (Value \<times> bytes)"
  and rlp_items :: "nat \<Rightarrow> bytes \<Rightarrow> error + Value list" where
  "rlp_value 0 b = Inl (Error ''out of fuel'')"
| "rlp_value (Suc n) [] = Inl (Error ''cannot parse empty string'')"
| "rlp_value (Suc n) (cur # rest) =
     (if cur < 0x80 then Inr (VBytes [cur], rest)
      else if cur < 0xB8 then
        (let size = unat cur - 0x80
         in if length rest < size then Inl (Error ''length is not enough'')
            else Inr (VBytes (take size rest), drop size rest))
      else if cur < 0xC0 then
        (let intSize = unat cur - 0xB7
         in if length rest < intSize then Inl (Error ''bad size'')
            else (let size = read_size (take intSize rest); body = drop intSize rest
                  in if size < 56 then Inl (Error ''bad size'')
                     else if length body < size then Inl (Error ''length is not enough'')
                     else Inr (VBytes (take size body), drop size body)))
      else if cur < 0xF8 then
        (let size = unat cur - 0xC0
         in if length rest < size then Inl (Error ''length is not enough'')
            else (case rlp_items n (take size rest) of
                    Inl err \<Rightarrow> Inl err
                  | Inr vs \<Rightarrow> Inr (VArray vs, drop size rest)))
      else
        (let intSize = unat cur - 0xF7
         in if length rest < intSize then Inl (Error ''bad size'')
            else (let size = read_size (take intSize rest); body = drop intSize rest
                  in if size < 56 then Inl (Error ''bad size'')
                     else if length body < size then Inl (Error ''length is not enough'')
                     else (case rlp_items n (take size body) of
                             Inl err \<Rightarrow> Inl err
                           | Inr vs \<Rightarrow> Inr (VArray vs, drop size body)))))"
| "rlp_items 0 b = Inl (Error ''out of fuel'')"
| "rlp_items (Suc n) b =
     (if b = [] then Inr []
      else (case rlp_value n b of
              Inl err \<Rightarrow> Inl err
            | Inr (v, tail) \<Rightarrow>
                (case rlp_items n tail of Inl err \<Rightarrow> Inl err | Inr vs \<Rightarrow> Inr (v # vs))))"

definition rlp_parse :: "bytes \<Rightarrow> error + Value" where
  "rlp_parse b =
     (case rlp_value (2 * length b + 1) b of
        Inl err \<Rightarrow> Inl err
      | Inr (v, tail) \<Rightarrow> Inr v)"

definition rlp_elems :: "Value \<Rightarrow> error + Value list" where
  "rlp_elems v = (case v of VArray vs \<Rightarrow> Inr vs | VBytes b \<Rightarrow> Inl (Error ''value is not of type array''))"

definition rlp_bytes :: "Value \<Rightarrow> error + bytes" where
  "rlp_bytes v = (case v of VBytes b \<Rightarrow> Inr b | VArray vs \<Rightarrow> Inl (Error ''value is not of type bytes''))"

definition rlp_hash :: "Value \<Rightarrow> error + Hash" where
  "rlp_hash v =
     (case rlp_bytes v of
        Inl err \<Rightarrow> Inl err
      | Inr b \<Rightarrow> if length b \<noteq> 32 then Inl (Error ''incorrect length'') else Inr b)"

definition rlpLib :: "Value fastrlp" where
  "rlpLib = \<lparr>Parse = rlp_parse, GetElems = rlp_elems, GetHash = rlp_hash, MarshalTo = rlp_marshal\<rparr>"

subsection \<open>A header codec\<close>

text \<open>
  A codec for headers over the RLP values above: the fifteen fields before \<open>Hash\<close>,
  in declaration order, numbers as big-endian byte strings. The decoder asks for an
  array of fifteen byte strings and leaves \<open>Hash\<close> empty (the hash of a header is
  computed by code outside this model).
\<close>

definition uint_value :: "uint64 \<Rightarrow> Value" where
  "uint_value n = VBytes (big_bytes (unat n))"

definition header_value :: "Header \<Rightarrow> Value" where
  "header_value h =
     VArray [VBytes (ParentHash h), VBytes (Sha3Uncles h), VBytes (Miner h), VBytes (StateRoot h),
             VBytes (TxRoot h), VBytes (ReceiptsRoot h), VBytes (LogsBloom h),
             uint_value (Difficulty h), uint_value (Number h), uint_value (GasLimit h),
             uint_value (GasUsed h), uint_value (Timestamp h), VBytes (ExtraData h),
             VBytes (MixHash h), VBytes (Nonce h)]"

definition value_header :: "Value \<Rightarrow> error + Header" where
  "value_header v =
     (case rlp_elems v of
        Inl err \<Rightarrow> Inl err
      | Inr elems \<Rightarrow>
          if length elems \<noteq> 15 then Inl (Error ''not enough elements to decode header'')
          else (case decode_elems rlp_bytes elems of
                  Inl err \<Rightarrow> Inl err
                | Inr f \<Rightarrow>
                    Inr \<lparr>ParentHash = f ! 0, Sha3Uncles = f ! 1, Miner = f ! 2, StateRoot = f ! 3,
                         TxRoot = f ! 4, ReceiptsRoot = f ! 5, LogsBloom = f ! 6,
                         Difficulty = of_nat (read_size (f ! 7)), Number = of_nat (read_size (f ! 8)),
                         GasLimit = of_nat (read_size (f ! 9)), GasUsed = of_nat (read_size (f ! 10)),
                         Timestamp = of_nat (read_size (f ! 11)), ExtraData = f ! 12,
                         MixHash = f ! 13, Nonce = f ! 14, Hash = []\<rparr>))"

text \<open>
  A decoder for receipts over the RLP values above: a receipt is an array of four
  elements (root or status, cumulative gas used, logs bloom, logs), returned as they
  are.
\<close>

definition value_receipt :: "Value \<Rightarrow> error + Value list" where
  "value_receipt v =
     (case rlp_elems v of
        Inl err \<Rightarrow> Inl err
      | Inr elems \<Rightarrow>
          if length elems \<noteq> 4 then Inl (Error ''not enough elements to decode receipt'')
          else Inr elems)"

definition header0 :: Header where
  "header0 =
     \<lparr>ParentHash = replicate 32 0, Sha3Uncles = replicate 32 0, Miner = replicate 20 0,
      StateRoot = replicate 32 0, TxRoot = replicate 32 0, ReceiptsRoot = replicate 32 0,
      LogsBloom = replicate 256 0, Difficulty = 1, Number = 7, GasLimit = 5000, GasUsed = 0,
      Timestamp = 0, ExtraData = [], MixHash = replicate 32 0, Nonce = replicate 8 0,
      Hash = replicate 32 1\<rparr>"

section \<open>Properties of the storage layer\<close>

lemmas prefix_defs =
  DIFFICULTY_def HEADER_def HEAD_def FORK_def CANONICAL_def BODY_def RECEIPTS_def
  SNAPSHOTS_def TX_LOOKUP_PREFIX_def CHAIN_INDEXER_HEAD_def CHAIN_INDEXER_def
  HASH_def NUMBER_def EMPTY_def CHAIN_SECTIONS_def bytes_of_def

lemma encodeUint_PutUint64: "PutUint64 (replicate 8 0) n = Inr (encodeUint n)"
  by (simp add: PutUint64_def encodeUint_def)

lemma length_encodeUint: "length (encodeUint n) = 8"
  by (simp add: encodeUint_def be_bytes_def)

subsection \<open>The chain indexer panics\<close>

text \<open>
  C8. The chain-indexer operations \<open>ReadIndexSectionHead\<close>, \<open>WriteIndexSectionHead\<close>,
  \<open>WriteValidSectionsNum\<close> and \<open>WriteBloomBits\<close> panic on every input, whatever the
  database and its \<open>Set\<close> and \<open>Get\<close> are: the 8-byte big-endian write into the
  nil slice fails its bounds check before the database is reached.
\<close>

theorem chain_indexer_always_panics:
  "ReadIndexSectionHead kv BytesToHash db section = Inl IndexOutOfRange
   \<and> WriteIndexSectionHead kv db section hash = Inl IndexOutOfRange
   \<and> WriteValidSectionsNum kv db sections = Inl IndexOutOfRange
   \<and> WriteBloomBits kv db bitNum currentSection bHead bits = Inl IndexOutOfRange"
  by (simp add: ReadIndexSectionHead_def WriteIndexSectionHead_def
      WriteValidSectionsNum_def WriteBloomBits_def PutUint64_def)

subsection \<open>Header equality\<close>

text \<open>
  C10. Header equality is hash-only: \<open>Equal h hh\<close> holds exactly when the two
  \<open>Hash\<close> fields are equal, and changing any other field of a header (here
  \<open>ParentHash\<close>, \<open>Number\<close> and the rest) leaves it \<open>Equal\<close> to the original.
\<close>

theorem Header_Equal_hash_only:
  "Equal h hh = (Hash h = Hash hh)
   \<and> Equal (h\<lparr>ParentHash := p, Sha3Uncles := u, Miner := m, StateRoot := sr, TxRoot := tr,
              ReceiptsRoot := rr, LogsBloom := lb, Difficulty := d, Number := n,
              GasLimit := gl, GasUsed := gu, Timestamp := ts, ExtraData := ed,
              MixHash := mh, Nonce := no\<rparr>) h"
  by (simp add: Equal_def)

subsection \<open>The head number\<close>

lemma byte_at: "bit (push_bit k (ucast (ucast (drop_bit k (v::64 word)) :: 8 word)) :: 64 word) n
   \<longleftrightarrow> k \<le> n \<and> n < k + 8 \<and> n < 64 \<and> bit v n"
  by (auto simp: bit_simps)

lemma be_roundtrip:
  "(ucast (ucast (v::64 word) :: 8 word) :: 64 word) OR push_bit 8 (ucast (ucast (drop_bit 8 v) :: 8 word))
    OR push_bit 16 (ucast (ucast (drop_bit 16 v) :: 8 word))
    OR push_bit 24 (ucast (ucast (drop_bit 24 v) :: 8 word))
    OR push_bit 32 (ucast (ucast (drop_bit 32 v) :: 8 word))
    OR push_bit 40 (ucast (ucast (drop_bit 40 v) :: 8 word))
    OR push_bit 48 (ucast (ucast (drop_bit 48 v) :: 8 word))
    OR push_bit 56 (ucast (ucast (drop_bit 56 v) :: 8 word)) = v"
proof (rule bit_word_eqI)
  fix n assume n: "n < LENGTH(64)"
  have b0: "bit (ucast (ucast v :: 8 word) :: 64 word) n \<longleftrightarrow> n < 8 \<and> bit v n"
    by (auto simp: bit_simps)
  from n have c: "n < 8 \<or> (8 \<le> n \<and> n < 16) \<or> (16 \<le> n \<and> n < 24) \<or> (24 \<le> n \<and> n < 32)
     \<or> (32 \<le> n \<and> n < 40) \<or> (40 \<le> n \<and> n < 48) \<or> (48 \<le> n \<and> n < 56) \<or> (56 \<le> n \<and> n < 64)"
    by simp arith
  show "bit (ucast (ucast v :: 8 word) OR push_bit 8 (ucast (ucast (drop_bit 8 v) :: 8 word))
    OR push_bit 16 (ucast (ucast (drop_bit 16 v) :: 8 word))
    OR push_bit 24 (ucast (ucast (drop_bit 24 v) :: 8 word))
    OR push_bit 32 (ucast (ucast (drop_bit 32 v) :: 8 word))
    OR push_bit 40 (ucast (ucast (drop_bit 40 v) :: 8 word))
    OR push_bit 48 (ucast (ucast (drop_bit 48 v) :: 8 word))
    OR push_bit 56 (ucast (ucast (drop_bit 56 v) :: 8 word)) :: 64 word) n = bit v n"
    unfolding bit_or_iff byte_at b0 using c by (cases "bit v n") (simp_all, arith)
qed

lemma decodeUint_encodeUint: "decodeUint (encodeUint n) = Inr n"
  by (simp add: decodeUint_def encodeUint_def Uint64_def be_bytes_def be_roundtrip)

lemma decodeUint_total: "length b = 8 \<Longrightarrow> \<exists>n. decodeUint b = Inr n"
  by (simp add: decodeUint_def Uint64_def)

text \<open>
  C9. Head-number round trip and guard. On a store that returns the value last set
  for a key, \<open>ReadHeadNumber\<close> after a successful \<open>WriteHeadNumber n\<close> returns
  \<open>(n, true)\<close>. Whenever the stored value is absent (not found, or \<open>Get\<close> fails) or
  is not exactly 8 bytes long, \<open>ReadHeadNumber\<close> returns \<open>(0, false)\<close>. It never
  panics.
\<close>

theorem head_number_roundtrip_and_guard:
  "((\<forall>d k v d'. kvSet kv d k v = (d', None) \<longrightarrow> kvGet kv d' k = (v, True, None))
      \<and> WriteHeadNumber kv db n = (db', None)
     \<longrightarrow> ReadHeadNumber kv db' = Inr (n, True))
   \<and> (kvGet kv db (HEAD @ NUMBER) = (data, ok, err) \<and> (\<not> ok \<or> err \<noteq> None \<or> length data \<noteq> 8)
     \<longrightarrow> ReadHeadNumber kv db = Inr (0, False))
   \<and> (\<exists>r. ReadHeadNumber kv db = Inr r)"
proof (intro conjI impI)
  assume a: "(\<forall>d k v d'. kvSet kv d k v = (d', None) \<longrightarrow> kvGet kv d' k = (v, True, None))
      \<and> WriteHeadNumber kv db n = (db', None)"
  then have "kvSet kv db (HEAD @ NUMBER) (encodeUint n) = (db', None)"
    by (simp add: WriteHeadNumber_def set_kv_def)
  with a have "kvGet kv db' (HEAD @ NUMBER) = (encodeUint n, True, None)"
    by blast
  then show "ReadHeadNumber kv db' = Inr (n, True)"
    by (simp add: ReadHeadNumber_def get_kv_def length_encodeUint decodeUint_encodeUint)
next
  assume "kvGet kv db (HEAD @ NUMBER) = (data, ok, err) \<and> (\<not> ok \<or> err \<noteq> None \<or> length data \<noteq> 8)"
  then show "ReadHeadNumber kv db = Inr (0, False)"
    by (auto simp: ReadHeadNumber_def get_kv_def)
next
  obtain d ok e where g: "kvGet kv db (HEAD @ NUMBER) = (d, ok, e)"
    by (cases "kvGet kv db (HEAD @ NUMBER)") auto
  show "\<exists>r. ReadHeadNumber kv db = Inr r"
  proof (cases "e = None \<and> ok \<and> length d = 8")
    case True
    with decodeUint_total [of d] obtain m where "decodeUint d = Inr m" by blast
    with True g have "ReadHeadNumber kv db = Inr (m, True)"
      by (simp add: ReadHeadNumber_def get_kv_def)
    then show ?thesis by blast
  next
    case False
    with g show ?thesis by (auto simp: ReadHeadNumber_def get_kv_def)
  qed
qed

lemma memKV_Set_Get:
  "kvSet (memKV cap) d k v = (d', None) \<Longrightarrow> kvGet (memKV cap) d' k = (v, True, None)"
  by (auto simp: memKV_def memSet_def memGet_def update_conv' split: if_splits)

lemma memKV_Set_frame:
  "kvSet (memKV cap) d k v = (d', None) \<Longrightarrow> k' \<noteq> k \<Longrightarrow> kvGet (memKV cap) d' k' = kvGet (memKV cap) d k'"
  by (auto simp: memKV_def memSet_def memGet_def update_conv' split: if_splits)

theorem head_number_roundtrip_and_guard_witness:
  "ReadHeadNumber (memKV 8) (fst (WriteHeadNumber (memKV 8) [] 0x0102030405060708))
     = Inr (0x0102030405060708, True)
   \<and> ReadHeadNumber (memKV 8) [] = Inr (0, False)
   \<and> ReadHeadNumber (memKV 8) [(HEAD @ NUMBER, [1, 2, 3])] = Inr (0, False)"
proof -
  have w: "WriteHeadNumber (memKV 8) [] 0x0102030405060708
      = (fst (WriteHeadNumber (memKV 8) [] 0x0102030405060708), None)"
    by (simp add: WriteHeadNumber_def set_kv_def memKV_def memSet_def)
  have law: "\<forall>d k v d'. kvSet (memKV 8) d k v = (d', None) \<longrightarrow> kvGet (memKV 8) d' k = (v, True, None)"
    using memKV_Set_Get by blast
  have g1: "kvGet (memKV 8) [] (HEAD @ NUMBER) = ([], False, None)"
    by (simp add: memKV_def memGet_def)
  have g2: "kvGet (memKV 8) [(HEAD @ NUMBER, [1, 2, 3])] (HEAD @ NUMBER) = ([1, 2, 3], True, None)"
    by (simp add: memKV_def memGet_def)
  from head_number_roundtrip_and_guard
    [where kv = "memKV 8" and db = "[]" and n = "0x0102030405060708"
       and db' = "fst (WriteHeadNumber (memKV 8) [] 0x0102030405060708)"
       and data = "[]" and ok = False and err = None] law w g1
  have 1: "ReadHeadNumber (memKV 8) (fst (WriteHeadNumber (memKV 8) [] 0x0102030405060708))
     = Inr (0x0102030405060708, True)" and 2: "ReadHeadNumber (memKV 8) [] = Inr (0, False)"
    by blast+
  from head_number_roundtrip_and_guard
    [where kv = "memKV 8" and db = "[(HEAD @ NUMBER, [1, 2, 3])]" and data = "[1, 2, 3]"
       and ok = True and err = None] g2
  have 3: "ReadHeadNumber (memKV 8) [(HEAD @ NUMBER, [1, 2, 3])] = Inr (0, False)"
    by simp
  from 1 2 3 show ?thesis by blast
qed

subsection \<open>Writing the canonical header\<close>

lemma WriteCanonicalHeader_set_all:
  "WriteCanonicalHeader kv rlp M db h diff = set_all kv db (canonical_writes rlp M h diff)"
  by (simp add: WriteCanonicalHeader_def canonical_writes_def WriteHeader_def write2_def
      WriteHeadHash_def WriteHeadNumber_def WriteCanonicalHash_def WriteDiff_def set_kv_def
      split: prod.splits option.splits)

lemma canonical_writes_distinct: "distinct (map fst (canonical_writes rlp M h diff))"
  by (simp add: canonical_writes_def prefix_defs)

lemma set_all_ok:
  "lawful kv \<Longrightarrow> distinct (map fst kvs) \<Longrightarrow> set_all kv db kvs = (db', None) \<Longrightarrow>
   (\<forall>(k, v) \<in> set kvs. kvGet kv db' k = (v, True, None))
   \<and> (\<forall>k'. k' \<notin> set (map fst kvs) \<longrightarrow> kvGet kv db' k' = kvGet kv db k')"
proof (induction kvs arbitrary: db)
  case Nil
  then show ?case by simp
next
  case (Cons a kvs)
  obtain k v where a: "a = (k, v)" by (cases a)
  from Cons.prems(3) a obtain d1 where s1: "kvSet kv db k v = (d1, None)"
    and rest: "set_all kv d1 kvs = (db', None)"
    by (auto split: prod.splits option.splits)
  from Cons.prems(1) s1 have g1: "kvGet kv d1 k = (v, True, None)"
    and f1: "\<And>k'. k' \<noteq> k \<Longrightarrow> kvGet kv d1 k' = kvGet kv db k'"
    unfolding lawful_def by blast+
  from Cons.prems(2) a have dk: "k \<notin> set (map fst kvs)" and dr: "distinct (map fst kvs)"
    by auto
  from Cons.IH [OF Cons.prems(1) dr rest]
  have ih1: "\<forall>(k, v) \<in> set kvs. kvGet kv db' k = (v, True, None)"
    and ih2: "\<forall>k'. k' \<notin> set (map fst kvs) \<longrightarrow> kvGet kv db' k' = kvGet kv d1 k'"
    by blast+
  from ih2 dk g1 have "kvGet kv db' k = (v, True, None)" by simp
  with ih1 a have p1: "\<forall>(k, v) \<in> set (a # kvs). kvGet kv db' k = (v, True, None)" by simp
  from ih2 f1 a have p2: "\<forall>k'. k' \<notin> set (map fst (a # kvs)) \<longrightarrow> kvGet kv db' k' = kvGet kv db k'"
    by simp
  from p1 p2 show ?case by blast
qed

lemma set_all_err:
  "set_all kv db kvs = (db', Some e) \<Longrightarrow>
   \<exists>done k v rest dbk. kvs = done @ (k, v) # rest \<and> set_all kv db done = (dbk, None)
      \<and> kvSet kv dbk k v = (db', Some e)"
proof (induction kvs arbitrary: db)
  case Nil
  then show ?case by simp
next
  case (Cons a kvs)
  obtain k v where a: "a = (k, v)" by (cases a)
  obtain d1 r where s1: "kvSet kv db k v = (d1, r)" by (cases "kvSet kv db k v")
  show ?case
  proof (cases r)
    case None
    with Cons.prems a s1 have "set_all kv d1 kvs = (db', Some e)" by simp
    from Cons.IH [OF this] obtain dn k2 v2 rest dbk where
      "kvs = dn @ (k2, v2) # rest" "set_all kv d1 dn = (dbk, None)" "kvSet kv dbk k2 v2 = (db', Some e)"
      by blast
    with a s1 None have "a # kvs = (a # dn) @ (k2, v2) # rest \<and> set_all kv db (a # dn) = (dbk, None)
      \<and> kvSet kv dbk k2 v2 = (db', Some e)" by simp
    then show ?thesis by blast
  next
    case (Some e')
    with Cons.prems a s1 have "a # kvs = [] @ (k, v) # kvs \<and> set_all kv db [] = (db, None)
       \<and> kvSet kv db k v = (db', Some e)" by simp
    then show ?thesis by blast
  qed
qed


text \<open>
  C1 (as amended). \<open>WriteCanonicalHeader\<close> is a sequence of five \<open>Set\<close> calls that
  returns at the first error; it is not atomic. On a lawful store: if it returns nil,
  all five entries (header, head hash, head number, canonical hash, difficulty) read
  back as written; if it returns an error, the error is that of the first failing
  \<open>Set\<close>, the writes before it were made and read back in the store that \<open>Set\<close>
  was called on, and no later write is attempted. Nothing is rolled back.
\<close>

theorem WriteCanonicalHeader_stops_at_first_error:
  assumes "lawful kv"
    and "WriteCanonicalHeader kv rlp M db h diff = (db', err)"
  shows "(err = None \<longrightarrow>
            (\<forall>(k, v) \<in> set (canonical_writes rlp M h diff). kvGet kv db' k = (v, True, None)))
       \<and> (err \<noteq> None \<longrightarrow>
            (\<exists>done k v rest dbk.
               canonical_writes rlp M h diff = done @ (k, v) # rest
               \<and> set_all kv db done = (dbk, None)
               \<and> kvSet kv dbk k v = (db', err)
               \<and> (\<forall>(k', v') \<in> set done. kvGet kv dbk k' = (v', True, None))))"
proof (intro conjI impI)
  assume "err = None"
  with assms(2) have "set_all kv db (canonical_writes rlp M h diff) = (db', None)"
    by (simp add: WriteCanonicalHeader_set_all)
  from set_all_ok [OF assms(1) canonical_writes_distinct this]
  show "\<forall>(k, v) \<in> set (canonical_writes rlp M h diff). kvGet kv db' k = (v, True, None)"
    by blast
next
  assume "err \<noteq> None"
  then obtain e where e: "err = Some e" by blast
  with assms(2) have "set_all kv db (canonical_writes rlp M h diff) = (db', Some e)"
    by (simp add: WriteCanonicalHeader_set_all)
  from set_all_err [OF this] obtain dn k v rest dbk where
    split: "canonical_writes rlp M h diff = dn @ (k, v) # rest"
    and run: "set_all kv db dn = (dbk, None)"
    and fail: "kvSet kv dbk k v = (db', Some e)"
    by blast
  from canonical_writes_distinct [of rlp M h diff] split have "distinct (map fst dn)"
    by simp
  from set_all_ok [OF assms(1) this run]
  have "\<forall>(k', v') \<in> set dn. kvGet kv dbk k' = (v', True, None)"
    by blast
  with split run fail e
  show "\<exists>done k v rest dbk.
               canonical_writes rlp M h diff = done @ (k, v) # rest
               \<and> set_all kv db done = (dbk, None)
               \<and> kvSet kv dbk k v = (db', err)
               \<and> (\<forall>(k', v') \<in> set done. kvGet kv dbk k' = (v', True, None))"
    by blast
qed

lemma memKV_lawful: "lawful (memKV cap)"
  unfolding lawful_def
  by (auto simp: memKV_def memSet_def memGet_def update_conv' split: if_splits)

lemma full_run:
  "WriteCanonicalHeader (memKV 4) rlpLib header_value [] header0 1 =
     ([(HEADER @ Hash header0, rlp_marshal (header_value header0)),
       (HEAD @ HASH, Hash header0),
       (HEAD @ NUMBER, encodeUint (Number header0)),
       (CANONICAL @ encodeUint (Number header0), Hash header0)],
      Some (Error ''store is full''))"
  by (simp add: WriteCanonicalHeader_def WriteHeader_def write2_def
      WriteHeadHash_def WriteHeadNumber_def WriteCanonicalHash_def WriteDiff_def set_kv_def
      memKV_def memSet_def rlpLib_def prefix_defs header0_def encodeUint_def be_bytes_def)

text \<open>
  C1 as stated fails: on a store with room for four keys the fifth \<open>Set\<close> (the
  difficulty) fails, \<open>WriteCanonicalHeader\<close> returns its error, and the store is not
  unchanged: the head hash, absent before, is now the header's hash.
\<close>

theorem WriteCanonicalHeader_not_atomic:
  "snd (WriteCanonicalHeader (memKV 4) rlpLib header_value [] header0 1) = Some (Error ''store is full'')
   \<and> fst (WriteCanonicalHeader (memKV 4) rlpLib header_value [] header0 1) \<noteq> []
   \<and> kvGet (memKV 4) [] (HEAD @ HASH) = ([], False, None)
   \<and> kvGet (memKV 4) (fst (WriteCanonicalHeader (memKV 4) rlpLib header_value [] header0 1)) (HEAD @ HASH)
        = (Hash header0, True, None)"
  by (simp add: full_run) (simp add: memKV_def memGet_def prefix_defs header0_def)


lemma ok_run:
  "WriteCanonicalHeader (memKV 5) rlpLib header_value [] header0 1 =
     ([(HEADER @ Hash header0, rlp_marshal (header_value header0)),
       (HEAD @ HASH, Hash header0),
       (HEAD @ NUMBER, encodeUint (Number header0)),
       (CANONICAL @ encodeUint (Number header0), Hash header0),
       (DIFFICULTY @ Hash header0, Bytes_big 1)],
      None)"
  by (simp add: WriteCanonicalHeader_def WriteHeader_def write2_def
      WriteHeadHash_def WriteHeadNumber_def WriteCanonicalHash_def WriteDiff_def set_kv_def
      memKV_def memSet_def rlpLib_def prefix_defs header0_def encodeUint_def be_bytes_def)

theorem WriteCanonicalHeader_stops_at_first_error_witness:
  "lawful (memKV 5)
   \<and> snd (WriteCanonicalHeader (memKV 5) rlpLib header_value [] header0 1) = None
   \<and> kvGet (memKV 5) (fst (WriteCanonicalHeader (memKV 5) rlpLib header_value [] header0 1))
        (HEADER @ Hash header0) = (rlp_marshal (header_value header0), True, None)
   \<and> kvGet (memKV 5) (fst (WriteCanonicalHeader (memKV 5) rlpLib header_value [] header0 1))
        (DIFFICULTY @ Hash header0) = (Bytes_big 1, True, None)
   \<and> lawful (memKV 4)
   \<and> snd (WriteCanonicalHeader (memKV 4) rlpLib header_value [] header0 1) = Some (Error ''store is full'')
   \<and> (\<exists>done k v rest dbk.
         canonical_writes rlpLib header_value header0 1 = done @ (k, v) # rest
         \<and> set_all (memKV 4) [] done = (dbk, None)
         \<and> kvSet (memKV 4) dbk k v
             = (fst (WriteCanonicalHeader (memKV 4) rlpLib header_value [] header0 1),
                Some (Error ''store is full''))
         \<and> (\<forall>(k', v') \<in> set done. kvGet (memKV 4) dbk k' = (v', True, None)))"
proof -
  let ?ok = "WriteCanonicalHeader (memKV 5) rlpLib header_value [] header0 1"
  let ?bad = "WriteCanonicalHeader (memKV 4) rlpLib header_value [] header0 1"
  have r5: "?ok = (fst ?ok, None)" by (simp add: ok_run)
  have r4: "?bad = (fst ?bad, Some (Error ''store is full''))" by (simp add: full_run)
  from WriteCanonicalHeader_stops_at_first_error [OF memKV_lawful r5]
  have all5: "\<forall>(k, v) \<in> set (canonical_writes rlpLib header_value header0 1).
      kvGet (memKV 5) (fst ?ok) k = (v, True, None)"
    by simp
  have m1: "(HEADER @ Hash header0, rlp_marshal (header_value header0))
      \<in> set (canonical_writes rlpLib header_value header0 1)"
    and m2: "(DIFFICULTY @ Hash header0, Bytes_big 1)
      \<in> set (canonical_writes rlpLib header_value header0 1)"
    by (simp_all add: canonical_writes_def rlpLib_def)
  from all5 m1 have g1: "kvGet (memKV 5) (fst ?ok) (HEADER @ Hash header0)
      = (rlp_marshal (header_value header0), True, None)"
    by blast
  from all5 m2 have g2: "kvGet (memKV 5) (fst ?ok) (DIFFICULTY @ Hash header0)
      = (Bytes_big 1, True, None)"
    by blast
  from WriteCanonicalHeader_stops_at_first_error [OF memKV_lawful r4]
  have ex4: "\<exists>done k v rest dbk.
         canonical_writes rlpLib header_value header0 1 = done @ (k, v) # rest
         \<and> set_all (memKV 4) [] done = (dbk, None)
         \<and> kvSet (memKV 4) dbk k v = (fst ?bad, Some (Error ''store is full''))
         \<and> (\<forall>(k', v') \<in> set done. kvGet (memKV 4) dbk k' = (v', True, None))"
    by simp
  have s5: "snd ?ok = None" by (simp add: ok_run)
  have s4: "snd ?bad = Some (Error ''store is full'')" by (simp add: full_run)
  from memKV_lawful [of 5] memKV_lawful [of 4] s5 g1 g2 s4 ex4 show ?thesis
    by blast
qed

subsection \<open>Reading malformed data\<close>

lemma read2_Some:
  "kvGet kv db (p @ k) = (data, True, None) \<Longrightarrow> Parse rlp data = Inr v \<Longrightarrow>
   read2 kv rlp db p k = Some v"
  by (simp add: read2_def get_kv_def)

text \<open>
  C5. The storage layer panics on malformed persisted data. A stored byte sequence
  that parses as RLP but has the wrong shape makes the read panic with the decoding
  error, instead of returning it or a not-found result: \<open>ReadForks\<close> when the value
  is not an array or an element is not a hash, \<open>ReadHeader\<close> when the header decoder
  fails, \<open>ReadReceipts\<close> when the value is not an array or a receipt decoder fails.
  Such byte sequences exist: the witness stores the RLP empty string and a one-element
  list under each key.
\<close>

theorem storage_reads_panic_on_malformed_data:
  "(kvGet kv db (FORK @ EMPTY) = (data, True, None) \<and> Parse rlp data = Inr v
      \<and> GetElems rlp v = Inl err
     \<longrightarrow> ReadForks kv rlp db = Inl (PanicErr err))
   \<and> (kvGet kv db (FORK @ EMPTY) = (data, True, None) \<and> Parse rlp data = Inr v
      \<and> GetElems rlp v = Inr elems \<and> decode_elems (GetHash rlp) elems = Inl err
     \<longrightarrow> ReadForks kv rlp db = Inl (PanicErr err))
   \<and> (kvGet kv db (HEADER @ hash) = (data, True, None) \<and> Parse rlp data = Inr v
      \<and> UnmarshalHeader v = Inl err
     \<longrightarrow> ReadHeader kv rlp UnmarshalHeader db hash = Inl (PanicErr err))
   \<and> (kvGet kv db (RECEIPTS @ hash) = (data, True, None) \<and> Parse rlp data = Inr v
      \<and> GetElems rlp v = Inl err
     \<longrightarrow> ReadReceipts kv rlp UnmarshalReceipt db hash = Inl (PanicErr err))
   \<and> (kvGet kv db (RECEIPTS @ hash) = (data, True, None) \<and> Parse rlp data = Inr v
      \<and> GetElems rlp v = Inr elems \<and> decode_elems UnmarshalReceipt elems = Inl err
     \<longrightarrow> ReadReceipts kv rlp UnmarshalReceipt db hash = Inl (PanicErr err))"
proof (intro conjI impI)
  assume "kvGet kv db (FORK @ EMPTY) = (data, True, None) \<and> Parse rlp data = Inr v
      \<and> GetElems rlp v = Inl err"
  then show "ReadForks kv rlp db = Inl (PanicErr err)"
    by (simp add: ReadForks_def read2_Some)
next
  assume "kvGet kv db (FORK @ EMPTY) = (data, True, None) \<and> Parse rlp data = Inr v
      \<and> GetElems rlp v = Inr elems \<and> decode_elems (GetHash rlp) elems = Inl err"
  then show "ReadForks kv rlp db = Inl (PanicErr err)"
    by (simp add: ReadForks_def read2_Some)
next
  assume "kvGet kv db (HEADER @ hash) = (data, True, None) \<and> Parse rlp data = Inr v
      \<and> UnmarshalHeader v = Inl err"
  then show "ReadHeader kv rlp UnmarshalHeader db hash = Inl (PanicErr err)"
    by (simp add: ReadHeader_def read2_Some)
next
  assume "kvGet kv db (RECEIPTS @ hash) = (data, True, None) \<and> Parse rlp data = Inr v
      \<and> GetElems rlp v = Inl err"
  then show "ReadReceipts kv rlp UnmarshalReceipt db hash = Inl (PanicErr err)"
    by (simp add: ReadReceipts_def read2_Some)
next
  assume "kvGet kv db (RECEIPTS @ hash) = (data, True, None) \<and> Parse rlp data = Inr v
      \<and> GetElems rlp v = Inr elems \<and> decode_elems UnmarshalReceipt elems = Inl err"
  then show "ReadReceipts kv rlp UnmarshalReceipt db hash = Inl (PanicErr err)"
    by (simp add: ReadReceipts_def read2_Some)
qed

lemma rlp_parse_empty_string: "Parse rlpLib [0x80] = Inr (VBytes [])"
  by code_simp

lemma rlp_parse_short_list: "Parse rlpLib [0xC1, 0x01] = Inr (VArray [VBytes [1]])"
  by code_simp

lemma memGet_single: "kvGet (memKV cap) [(k, d)] k = (d, True, None)"
  by (simp add: memKV_def memGet_def)

theorem storage_reads_panic_on_malformed_data_witness:
  "ReadForks (memKV 8) rlpLib [(FORK @ EMPTY, [0x80])]
     = Inl (PanicErr (Error ''value is not of type array''))
   \<and> ReadForks (memKV 8) rlpLib [(FORK @ EMPTY, [0xC1, 0x01])]
     = Inl (PanicErr (Error ''incorrect length''))
   \<and> ReadHeader (memKV 8) rlpLib value_header [(HEADER @ Hash header0, [0x80])] (Hash header0)
     = Inl (PanicErr (Error ''value is not of type array''))
   \<and> ReadHeader (memKV 8) rlpLib value_header [(HEADER @ Hash header0, [0xC1, 0x01])] (Hash header0)
     = Inl (PanicErr (Error ''not enough elements to decode header''))
   \<and> ReadReceipts (memKV 8) rlpLib value_receipt [(RECEIPTS @ Hash header0, [0x80])] (Hash header0)
     = Inl (PanicErr (Error ''value is not of type array''))
   \<and> ReadReceipts (memKV 8) rlpLib value_receipt [(RECEIPTS @ Hash header0, [0xC1, 0x01])] (Hash header0)
     = Inl (PanicErr (Error ''value is not of type array''))"
proof -
  have e1: "GetElems rlpLib (VBytes []) = Inl (Error ''value is not of type array'')"
    by (simp add: rlpLib_def rlp_elems_def)
  have e2: "GetElems rlpLib (VArray [VBytes [1]]) = Inr [VBytes [1]]"
    by (simp add: rlpLib_def rlp_elems_def)
  have h2: "decode_elems (GetHash rlpLib) [VBytes [1]] = Inl (Error ''incorrect length'')"
    by (simp add: rlpLib_def rlp_hash_def rlp_bytes_def)
  have u1: "value_header (VBytes []) = Inl (Error ''value is not of type array'')"
    by (simp add: value_header_def rlp_elems_def)
  have u2: "value_header (VArray [VBytes [1]]) = Inl (Error ''not enough elements to decode header'')"
    by (simp add: value_header_def rlp_elems_def)
  have r2: "decode_elems value_receipt [VBytes [1]] = Inl (Error ''value is not of type array'')"
    by (simp add: value_receipt_def rlp_elems_def)
  note g = memGet_single rlp_parse_empty_string rlp_parse_short_list
  have 1: "ReadForks (memKV 8) rlpLib [(FORK @ EMPTY, [0x80])]
     = Inl (PanicErr (Error ''value is not of type array''))"
    using storage_reads_panic_on_malformed_data
      [where kv = "memKV 8" and rlp = rlpLib and db = "[(FORK @ EMPTY, [0x80])]"
         and data = "[0x80]" and v = "VBytes []" and err = "Error ''value is not of type array''"]
      g e1 by blast
  have 2: "ReadForks (memKV 8) rlpLib [(FORK @ EMPTY, [0xC1, 0x01])]
     = Inl (PanicErr (Error ''incorrect length''))"
    using storage_reads_panic_on_malformed_data
      [where kv = "memKV 8" and rlp = rlpLib and db = "[(FORK @ EMPTY, [0xC1, 0x01])]"
         and data = "[0xC1, 0x01]" and v = "VArray [VBytes [1]]" and elems = "[VBytes [1]]"
         and err = "Error ''incorrect length''"]
      g e2 h2 by blast
  have 3: "ReadHeader (memKV 8) rlpLib value_header [(HEADER @ Hash header0, [0x80])] (Hash header0)
     = Inl (PanicErr (Error ''value is not of type array''))"
    using storage_reads_panic_on_malformed_data
      [where kv = "memKV 8" and rlp = rlpLib and db = "[(HEADER @ Hash header0, [0x80])]"
         and hash = "Hash header0" and UnmarshalHeader = value_header
         and data = "[0x80]" and v = "VBytes []" and err = "Error ''value is not of type array''"]
      g u1 by blast
  have 4: "ReadHeader (memKV 8) rlpLib value_header [(HEADER @ Hash header0, [0xC1, 0x01])] (Hash header0)
     = Inl (PanicErr (Error ''not enough elements to decode header''))"
    using storage_reads_panic_on_malformed_data
      [where kv = "memKV 8" and rlp = rlpLib and db = "[(HEADER @ Hash header0, [0xC1, 0x01])]"
         and hash = "Hash header0" and UnmarshalHeader = value_header
         and data = "[0xC1, 0x01]" and v = "VArray [VBytes [1]]"
         and err = "Error ''not enough elements to decode header''"]
      g u2 by blast
  have 5: "ReadReceipts (memKV 8) rlpLib value_receipt [(RECEIPTS @ Hash header0, [0x80])] (Hash header0)
     = Inl (PanicErr (Error ''value is not of type array''))"
    using storage_reads_panic_on_malformed_data
      [where kv = "memKV 8" and rlp = rlpLib and db = "[(RECEIPTS @ Hash header0, [0x80])]"
         and hash = "Hash header0" and UnmarshalReceipt = value_receipt
         and data = "[0x80]" and v = "VBytes []" and err = "Error ''value is not of type array''"]
      g e1 by blast
  have 6: "ReadReceipts (memKV 8) rlpLib value_receipt [(RECEIPTS @ Hash header0, [0xC1, 0x01])] (Hash header0)
     = Inl (PanicErr (Error ''value is not of type array''))"
    using storage_reads_panic_on_malformed_data
      [where kv = "memKV 8" and rlp = rlpLib and db = "[(RECEIPTS @ Hash header0, [0xC1, 0x01])]"
         and hash = "Hash header0" and UnmarshalReceipt = value_receipt
         and data = "[0xC1, 0x01]" and v = "VArray [VBytes [1]]" and elems = "[VBytes [1]]"
         and err = "Error ''value is not of type array''"]
      g e2 r2 by blast
  from 1 2 3 4 5 6 show ?thesis by blast
qed

section \<open>Properties of the consensus core\<close>

subsection \<open>Quorum arithmetic\<close>

lemma Quorum_MaxFaulty_sum: "1 \<le> N \<Longrightarrow> Quorum N + MaxFaulty N = int N"
  unfolding Quorum_def MaxFaulty_def by presburger

lemma Quorum_majority: "int N - Quorum N < Quorum N"
  unfolding Quorum_def by presburger

lemma quorums_intersect:
  assumes "finite V" "A \<subseteq> V" "B \<subseteq> V"
    and "Quorum (card V) \<le> int (card A)" "Quorum (card V) \<le> int (card B)"
  shows "A \<inter> B \<noteq> {}"
proof
  assume d: "A \<inter> B = {}"
  from assms have fa: "finite A" and fb: "finite B" by (auto intro: finite_subset)
  from d fa fb have "card (A \<union> B) = card A + card B" by (simp add: card_Un_disjoint)
  moreover from assms have "card (A \<union> B) \<le> card V" by (simp add: card_mono)
  ultimately have "int (card A) + int (card B) \<le> int (card V)" by simp
  with assms(4,5) Quorum_majority [of "card V"] show False by linarith
qed

text \<open>
  C3. Quorum arithmetic. For every validator-set size \<open>N \<ge> 1\<close>, with
  \<open>Q = floor(2N/3) + 1\<close> and \<open>F = floor((N-1)/3)\<close>: \<open>Q + F \<le> N\<close> and
  \<open>Q > N - Q\<close>; so two sets of at least \<open>Q\<close> validators each, among \<open>N\<close>
  validators, are never disjoint.
\<close>

theorem quorum_arithmetic:
  "(1 \<le> N \<longrightarrow> Quorum N + MaxFaulty N \<le> int N \<and> Quorum N > int N - Quorum N)
   \<and> (finite V \<and> card V = N \<and> A \<subseteq> V \<and> B \<subseteq> V
        \<and> Quorum N \<le> int (card A) \<and> Quorum N \<le> int (card B) \<longrightarrow> A \<inter> B \<noteq> {})"
proof (intro conjI impI)
  assume "1 \<le> N"
  then show "Quorum N + MaxFaulty N \<le> int N" by (simp add: Quorum_MaxFaulty_sum)
next
  show "int N - Quorum N < Quorum N" by (rule Quorum_majority)
next
  assume "finite V \<and> card V = N \<and> A \<subseteq> V \<and> B \<subseteq> V
        \<and> Quorum N \<le> int (card A) \<and> Quorum N \<le> int (card B)"
  then show "A \<inter> B \<noteq> {}" using quorums_intersect [of V A B] by blast
qed

theorem quorum_arithmetic_witness:
  "Quorum 1 = 1 \<and> MaxFaulty 1 = 0 \<and> Quorum 4 = 3 \<and> MaxFaulty 4 = 1
   \<and> Quorum 7 = 5 \<and> MaxFaulty 7 = 2 \<and> Quorum 10 = 7 \<and> MaxFaulty 10 = 3
   \<and> Quorum 4 + MaxFaulty 4 \<le> 4 \<and> Quorum 4 > 4 - Quorum 4
   \<and> {1, 2, 3 :: nat} \<inter> {2, 3, 4} \<noteq> {}"
proof -
  have v: "Quorum 1 = 1 \<and> MaxFaulty 1 = 0 \<and> Quorum 4 = 3 \<and> MaxFaulty 4 = 1
   \<and> Quorum 7 = 5 \<and> MaxFaulty 7 = 2 \<and> Quorum 10 = 7 \<and> MaxFaulty 10 = 3"
    by (simp add: Quorum_def MaxFaulty_def)
  have c: "finite {1, 2, 3, 4 :: nat} \<and> card {1, 2, 3, 4 :: nat} = 4
      \<and> {1, 2, 3} \<subseteq> {1, 2, 3, 4 :: nat} \<and> {2, 3, 4} \<subseteq> {1, 2, 3, 4 :: nat}
      \<and> Quorum 4 \<le> int (card {1, 2, 3 :: nat}) \<and> Quorum 4 \<le> int (card {2, 3, 4 :: nat})"
    by (simp add: Quorum_def)
  from quorum_arithmetic [of 4 "{1, 2, 3, 4 :: nat}" "{1, 2, 3}" "{2, 3, 4}"] c
  have "Quorum 4 + MaxFaulty 4 \<le> 4 \<and> Quorum 4 > 4 - Quorum 4
     \<and> {1, 2, 3 :: nat} \<inter> {2, 3, 4} \<noteq> {}"
    by simp
  with v show ?thesis by blast
qed

subsection \<open>Proposer rotation\<close>

lemma ProposerAt_nth:
  "vs \<noteq> [] \<Longrightarrow>
   ProposerAt \<lparr>Sequence = H, Round = r\<rparr> vs = Inr (vs ! ((unat H + unat r) mod length vs))"
  by (simp add: ProposerAt_def)

lemma unat_round: "r < 2 ^ 64 \<Longrightarrow> unat (of_nat r :: uint64) = r"
  by (simp add: unat_of_nat)

lemma proposers_rotate:
  assumes "vs \<noteq> []" "length vs < 2 ^ 64"
  shows "map (\<lambda>r. ProposerAt \<lparr>Sequence = H, Round = of_nat r\<rparr> vs) [0..<length vs]
         = map Inr (rotate (unat H) vs)"
proof (rule nth_equalityI)
  show "length (map (\<lambda>r. ProposerAt \<lparr>Sequence = H, Round = of_nat r\<rparr> vs) [0..<length vs])
      = length (map Inr (rotate (unat H) vs))"
    by simp
next
  fix i
  assume "i < length (map (\<lambda>r. ProposerAt \<lparr>Sequence = H, Round = of_nat r\<rparr> vs) [0..<length vs])"
  then have i: "i < length vs" by simp
  with assms(2) have "i < 2 ^ 64" by simp
  then have u: "unat (of_nat i :: uint64) = i" by (rule unat_round)
  from i assms(1) u
  show "map (\<lambda>r. ProposerAt \<lparr>Sequence = H, Round = of_nat r\<rparr> vs) [0..<length vs] ! i
      = map Inr (rotate (unat H) vs) ! i"
    by (simp add: ProposerAt_nth nth_rotate)
qed

text \<open>
  C4. Proposer rotation. For a non-empty validator set \<open>vs\<close> of size \<open>N\<close> and a
  view \<open>(H, r)\<close>, \<open>ProposerAt\<close> is \<open>vs[(H + r) mod N]\<close>. If \<open>vs\<close> has no
  duplicates, the proposers at rounds \<open>0 .. N-1\<close> of a fixed \<open>H\<close> are \<open>vs\<close>
  rotated by \<open>H\<close>: the \<open>N\<close> validators, each exactly once; and round \<open>k + N\<close>
  has the proposer of round \<open>k\<close>.
\<close>

theorem ProposerAt_round_robin:
  "(vs \<noteq> [] \<longrightarrow>
      ProposerAt \<lparr>Sequence = H, Round = r\<rparr> vs = Inr (vs ! ((unat H + unat r) mod length vs)))
   \<and> (vs \<noteq> [] \<and> distinct vs \<and> length vs < 2 ^ 64 \<longrightarrow>
        map (\<lambda>k. ProposerAt \<lparr>Sequence = H, Round = of_nat k\<rparr> vs) [0..<length vs]
          = map Inr (rotate (unat H) vs)
        \<and> distinct (map (\<lambda>k. ProposerAt \<lparr>Sequence = H, Round = of_nat k\<rparr> vs) [0..<length vs])
        \<and> set (map (\<lambda>k. ProposerAt \<lparr>Sequence = H, Round = of_nat k\<rparr> vs) [0..<length vs])
            = Inr ` set vs)
   \<and> (vs \<noteq> [] \<and> k + length vs < 2 ^ 64 \<longrightarrow>
        ProposerAt \<lparr>Sequence = H, Round = of_nat (k + length vs)\<rparr> vs
          = ProposerAt \<lparr>Sequence = H, Round = of_nat k\<rparr> vs)"
proof (intro conjI impI)
  assume "vs \<noteq> []"
  then show "ProposerAt \<lparr>Sequence = H, Round = r\<rparr> vs = Inr (vs ! ((unat H + unat r) mod length vs))"
    by (rule ProposerAt_nth)
next
  assume a: "vs \<noteq> [] \<and> distinct vs \<and> length vs < 2 ^ 64"
  then have eq: "map (\<lambda>k. ProposerAt \<lparr>Sequence = H, Round = of_nat k\<rparr> vs) [0..<length vs]
          = map Inr (rotate (unat H) vs)"
    using proposers_rotate by blast
  show "map (\<lambda>k. ProposerAt \<lparr>Sequence = H, Round = of_nat k\<rparr> vs) [0..<length vs]
          = map Inr (rotate (unat H) vs)"
    by (rule eq)
  from a show "distinct (map (\<lambda>k. ProposerAt \<lparr>Sequence = H, Round = of_nat k\<rparr> vs) [0..<length vs])"
    unfolding eq by (simp add: distinct_map)
  show "set (map (\<lambda>k. ProposerAt \<lparr>Sequence = H, Round = of_nat k\<rparr> vs) [0..<length vs])
            = Inr ` set vs"
    unfolding eq by simp
next
  assume a: "vs \<noteq> [] \<and> k + length vs < 2 ^ 64"
  then have b1: "k + length vs < 2 ^ 64" and b2: "k < 2 ^ 64" by simp_all
  from a have ne: "vs \<noteq> []" by simp
  have u1: "unat (of_nat (k + length vs) :: uint64) = k + length vs"
    using b1 by (rule unat_round)
  have u2: "unat (of_nat k :: uint64) = k"
    using b2 by (rule unat_round)
  have "ProposerAt \<lparr>Sequence = H, Round = of_nat (k + length vs)\<rparr> vs
      = Inr (vs ! ((unat H + unat (of_nat (k + length vs) :: uint64)) mod length vs))"
    using ne by (rule ProposerAt_nth)
  also have "\<dots> = Inr (vs ! ((unat H + k + length vs) mod length vs))"
    by (simp only: u1 add.assoc)
  also have "\<dots> = Inr (vs ! ((unat H + k) mod length vs))"
    by (simp only: mod_add_self2)
  also have "\<dots> = Inr (vs ! ((unat H + unat (of_nat k :: uint64)) mod length vs))"
    by (simp only: u2)
  also have "\<dots> = ProposerAt \<lparr>Sequence = H, Round = of_nat k\<rparr> vs"
    using ne by (rule ProposerAt_nth [symmetric])
  finally show "ProposerAt \<lparr>Sequence = H, Round = of_nat (k + length vs)\<rparr> vs
          = ProposerAt \<lparr>Sequence = H, Round = of_nat k\<rparr> vs" .
qed

theorem ProposerAt_round_robin_witness:
  "ProposerAt \<lparr>Sequence = 7, Round = 2\<rparr> [[1], [2], [3], [4], [5]] = Inr [5]
   \<and> map (\<lambda>k. ProposerAt \<lparr>Sequence = 7, Round = of_nat k\<rparr> [[1], [2], [3], [4], [5]])
         [0..<length [[1], [2], [3], [4], [5 :: byte]]]
       = [Inr [3], Inr [4], Inr [5], Inr [1], Inr [2]]
   \<and> ProposerAt \<lparr>Sequence = 7, Round = of_nat (0 + length [[1], [2], [3], [4], [5 :: byte]])\<rparr>
         [[1], [2], [3], [4], [5]]
       = ProposerAt \<lparr>Sequence = 7, Round = of_nat 0\<rparr> [[1], [2], [3], [4], [5]]"
proof -
  let ?vs = "[[1], [2], [3], [4], [5]] :: Validator list"
  have h0: "?vs \<noteq> []" by simp
  have h: "?vs \<noteq> [] \<and> distinct ?vs \<and> length ?vs < 2 ^ 64" by simp
  have h2: "?vs \<noteq> [] \<and> 0 + length ?vs < 2 ^ 64" by simp
  have rot: "map Inr (rotate (unat (7 :: uint64)) ?vs)
      = ([Inr [3], Inr [4], Inr [5], Inr [1], Inr [2]] :: (ConfigError + Validator) list)"
    by code_simp
  have n: "Inr (?vs ! ((unat (7 :: uint64) + unat (2 :: uint64)) mod length ?vs))
      = (Inr [5] :: ConfigError + Validator)"
    by simp
  note t = ProposerAt_round_robin [where vs = ?vs and H = 7 and r = 2 and k = 0]
  from t h0 have "ProposerAt \<lparr>Sequence = 7, Round = 2\<rparr> ?vs
      = Inr (?vs ! ((unat (7 :: uint64) + unat (2 :: uint64)) mod length ?vs))"
    by blast
  from this n have 1: "ProposerAt \<lparr>Sequence = 7, Round = 2\<rparr> ?vs = Inr [5]"
    by (rule trans)
  from t h have "map (\<lambda>k. ProposerAt \<lparr>Sequence = 7, Round = of_nat k\<rparr> ?vs) [0..<length ?vs]
       = map Inr (rotate (unat (7 :: uint64)) ?vs)"
    by blast
  from this rot have 2: "map (\<lambda>k. ProposerAt \<lparr>Sequence = 7, Round = of_nat k\<rparr> ?vs) [0..<length ?vs]
       = [Inr [3], Inr [4], Inr [5], Inr [1], Inr [2]]"
    by (rule trans)
  from t h2 have 3: "ProposerAt \<lparr>Sequence = 7, Round = of_nat (0 + length ?vs)\<rparr> ?vs
       = ProposerAt \<lparr>Sequence = 7, Round = of_nat 0\<rparr> ?vs"
    by blast
  from 1 2 3 show ?thesis by blast
qed

subsection \<open>Vote deduplication\<close>

lemma one_per_sender_Deduplicate:
  "one_per_sender store \<Longrightarrow> one_per_sender (Deduplicate store m)"
  by (simp add: one_per_sender_def Deduplicate_def)

lemma Deduplicate_known_sender:
  "Sender m \<in> fst ` set store \<Longrightarrow> Deduplicate store m = store"
  by (simp add: Deduplicate_def)

lemma Deduplicate_senders:
  "fst ` set (Deduplicate store m) = insert (Sender m) (fst ` set store)"
  by (auto simp: Deduplicate_def)

lemma deduplicated_new: "deduplicated (newRoundState p)"
  by (simp add: deduplicated_def newRoundState_def one_per_sender_def)

lemma deduplicated_AddMessage:
  "deduplicated st \<Longrightarrow> deduplicated (AddMessage ip st m)"
  by (cases "MType m") (simp_all add: deduplicated_def AddMessage_def one_per_sender_Deduplicate)

lemma deduplicated_LockOnQuorum:
  "deduplicated st \<Longrightarrow> deduplicated (LockOnQuorum vs view st)"
  by (simp add: deduplicated_def LockOnQuorum_def)

lemma deduplicated_Reset:
  "deduplicated st \<Longrightarrow> deduplicated (Reset seq st)"
  by (simp add: deduplicated_def Reset_def one_per_sender_def)

lemma deduplicated_applyOp:
  "deduplicated st \<Longrightarrow> deduplicated (applyOp st op)"
proof (cases op)
  case (OpAddMessage ip m)
  assume "deduplicated st"
  with OpAddMessage show ?thesis by (simp add: deduplicated_AddMessage)
next
  case (OpLockOnQuorum vs view)
  assume "deduplicated st"
  with OpLockOnQuorum show ?thesis by (simp add: deduplicated_LockOnQuorum)
next
  case (OpReset seq)
  assume "deduplicated st"
  with OpReset show ?thesis by (simp add: deduplicated_Reset)
next
  case (OpSetProposal p)
  assume "deduplicated st"
  with OpSetProposal show ?thesis by (simp add: deduplicated_def)
qed

lemma deduplicated_Receive:
  "deduplicated st \<Longrightarrow> deduplicated (Receive sig_ok ip vs view st m)"
proof -
  assume d: "deduplicated st"
  then have "deduplicated (AcceptProposal st m)"
    by (simp add: deduplicated_def AcceptProposal_def)
  with d show ?thesis
    by (simp add: Receive_def deduplicated_AddMessage deduplicated_LockOnQuorum split: sum.splits)
qed

lemma deduplicated_foldl:
  "deduplicated st \<Longrightarrow> deduplicated (foldl applyOp st ops)"
  by (induction ops arbitrary: st) (simp_all add: deduplicated_applyOp)

lemma second_Prepare_ignored:
  assumes "MType m1 = Prepare" "MType m2 = Prepare"
    and "Sender m2 = Sender m1" "MView m2 = MView m1"
  shows "PrepareVotes (AddMessage ip (AddMessage ip st m1) m2) = PrepareVotes (AddMessage ip st m1)"
proof -
  have "Sender m2 \<in> fst ` set (Deduplicate (PrepareVotes st (MView m1)) m1)"
    using assms(3) by (simp add: Deduplicate_senders)
  then have "Deduplicate (Deduplicate (PrepareVotes st (MView m1)) m1) m2
      = Deduplicate (PrepareVotes st (MView m1)) m1"
    by (rule Deduplicate_known_sender)
  with assms show ?thesis
    by (simp add: AddMessage_def)
qed

text \<open>
  C6. Vote deduplication. The vote stores of a Round State hold at most one message
  for each sender, view and message type: this holds of a fresh Round State and is
  preserved by every operation (adding a message, locking on quorum, reset, setting
  the proposal) and by receiving a message, hence after any sequence of operations.
  Adding a second Prepare from the same Sender for the same view leaves
  \<open>len(PrepareVotes[view])\<close> unchanged.
\<close>

theorem vote_deduplication:
  "deduplicated (newRoundState p)
   \<and> (deduplicated st \<longrightarrow> deduplicated (applyOp st op))
   \<and> (deduplicated st \<longrightarrow> deduplicated (Receive sig_ok ip vs cur st m))
   \<and> deduplicated (foldl applyOp (newRoundState p) ops)
   \<and> (MType m1 = Prepare \<and> MType m2 = Prepare \<and> Sender m2 = Sender m1 \<and> MView m2 = MView m1 \<longrightarrow>
        length (PrepareVotes (AddMessage ip (AddMessage ip st m1) m2) (MView m1))
          = length (PrepareVotes (AddMessage ip st m1) (MView m1)))
   \<and> (deduplicated st
        \<and> store \<in> {PrepareVotes st view, CommitVotes st view, RoundChangeVotes st view}
        \<and> (s, x) \<in> set store \<and> (s, y) \<in> set store
        \<longrightarrow> x = y)"
proof (intro conjI impI)
  show "deduplicated (newRoundState p)" by (rule deduplicated_new)
  show "deduplicated (foldl applyOp (newRoundState p) ops)"
    by (rule deduplicated_foldl [OF deduplicated_new])
next
  assume "deduplicated st"
  then show "deduplicated (applyOp st op)" by (rule deduplicated_applyOp)
next
  assume "deduplicated st"
  then show "deduplicated (Receive sig_ok ip vs cur st m)" by (rule deduplicated_Receive)
next
  assume "MType m1 = Prepare \<and> MType m2 = Prepare \<and> Sender m2 = Sender m1 \<and> MView m2 = MView m1"
  then show "length (PrepareVotes (AddMessage ip (AddMessage ip st m1) m2) (MView m1))
          = length (PrepareVotes (AddMessage ip st m1) (MView m1))"
    by (simp add: second_Prepare_ignored)
next
  assume a: "deduplicated st
        \<and> store \<in> {PrepareVotes st view, CommitVotes st view, RoundChangeVotes st view}
        \<and> (s, x) \<in> set store \<and> (s, y) \<in> set store"
  then have "distinct (map fst store)"
    by (auto simp: deduplicated_def one_per_sender_def)
  with a show "x = y" by (meson eq_key_imp_eq_value)
qed


theorem vote_deduplication_witness:
  "length (PrepareVotes (AddMessage False (newRoundState None) (signed_msg Prepare ''A'' [1])) view_1_0) = 1
   \<and> length (PrepareVotes
        (AddMessage False (AddMessage False (newRoundState None) (signed_msg Prepare ''A'' [1]))
           (signed_msg Prepare ''A'' [2])) view_1_0) = 1
   \<and> deduplicated (applyOp (newRoundState None) (OpAddMessage False (signed_msg Prepare ''A'' [1])))
   \<and> deduplicated (Receive signature_ok False accounts view_1_0 (newRoundState None)
        (signed_msg Prepare ''A'' [1]))"
proof -
  let ?m1 = "signed_msg Prepare ''A'' [1]"
  let ?m2 = "signed_msg Prepare ''A'' [2]"
  note t = vote_deduplication [where p = None and st = "newRoundState None" and ip = False
      and op = "OpAddMessage False ?m1" and m = ?m1 and ?m1.0 = ?m1 and ?m2.0 = ?m2
      and sig_ok = signature_ok and vs = accounts and cur = view_1_0]
  have h: "MType ?m1 = Prepare \<and> MType ?m2 = Prepare \<and> Sender ?m2 = Sender ?m1 \<and> MView ?m2 = MView ?m1"
    by (simp add: signed_msg_def)
  have v: "MView ?m1 = view_1_0" by (simp add: signed_msg_def)
  have 1: "length (PrepareVotes (AddMessage False (newRoundState None) ?m1) view_1_0) = 1"
    by (simp add: AddMessage_def newRoundState_def signed_msg_def Deduplicate_def)
  from t h have "length (PrepareVotes (AddMessage False (AddMessage False (newRoundState None) ?m1) ?m2) (MView ?m1))
      = length (PrepareVotes (AddMessage False (newRoundState None) ?m1) (MView ?m1))"
    by blast
  with 1 v have 2: "length (PrepareVotes (AddMessage False (AddMessage False (newRoundState None) ?m1) ?m2) view_1_0) = 1"
    by simp
  from t have d: "deduplicated (newRoundState None)" by blast
  from t d have 3: "deduplicated (applyOp (newRoundState None) (OpAddMessage False ?m1))"
    by blast
  from t d have 4: "deduplicated (Receive signature_ok False accounts view_1_0 (newRoundState None) ?m1)"
    by blast
  from 1 2 3 4 show ?thesis by blast
qed

subsection \<open>Replay\<close>




































end
